theory Spec2Isabelle
  imports Main
begin

section \<open>The query language of \<open>tri.query\<close>: data model\<close>

text \<open>
  The embedding follows \<open>src/lib/tri/query/__init__.py\<close>. The lexer is pyparsing, an
  external library: the model starts from what pyparsing hands to the parse actions
  \<open>binary_op_as_q\<close> and \<open>freetext_as_q\<close> and from the token lists that \<open>compile\<close>
  walks. The predicate type is Django's \<open>Q\<close>, also external: its constructor and the
  operators \<open>&\<close>, \<open>|\<close>, \<open>~\<close> are free constructors here, so that two predicates are
  equal exactly when they were built the same way.
\<close>

subsection \<open>Strings\<close>

text \<open>
  \<open>str.lower()\<close> on the characters a \<open>char\<close> can hold: the letters \<open>A\<close> to \<open>Z\<close> are
  mapped to \<open>a\<close> to \<open>z\<close>, every other character is kept.
\<close>

definition lower_char :: "char \<Rightarrow> char" where
  "lower_char c =
     (case map_of (zip ''ABCDEFGHIJKLMNOPQRSTUVWXYZ'' ''abcdefghijklmnopqrstuvwxyz'') c of
        Some d \<Rightarrow> d
      | None \<Rightarrow> c)"

definition lower :: "string \<Rightarrow> string" where
  "lower s = map lower_char s"

text \<open>\<open>s.strip('"')\<close>: every leading and every trailing double quote is removed.\<close>

definition strip_quotes :: "string \<Rightarrow> string" where
  "strip_quotes s =
     rev (dropWhile (\<lambda>c. c = CHR 0x22) (rev (dropWhile (\<lambda>c. c = CHR 0x22) s)))"

subsection \<open>Values, predicates, errors\<close>

text \<open>
  The attribute path of a variable: a string, \<open>None\<close>, or the module's \<open>MISSING\<close>
  sentinel (the default of the \<open>attr\<close> field of \<open>VariableBase\<close>).
\<close>

datatype attr_value = Attr string | AttrNone | MISSING

text \<open>A Python float is carried around by the code and never inspected.\<close>

typedecl pyfloat

text \<open>
  The objects found in the value position of a statement: an unquoted identifier
  (\<open>PyStr\<close>), a quoted string (class \<open>StringValue\<close>, quotes already stripped by its
  \<open>__new__\<close>), an integer, a float, a date, Django's \<open>F(attr)\<close>, and \<open>None\<close>.
\<close>

datatype val =
    PyNone
  | PyStr string
  | StringValue string
  | PyInt int
  | PyFloat pyfloat
  | PyDate int int int
  | F attr_value

text \<open>\<open>isinstance(v, basestring)\<close>; \<open>StringValue\<close> is a subclass of \<open>unicode\<close>.\<close>

fun basestring :: "val \<Rightarrow> string option" where
  "basestring (PyStr s) = Some s"
| "basestring (StringValue s) = Some s"
| "basestring _ = None"

fun is_StringValue :: "val \<Rightarrow> bool" where
  "is_StringValue (StringValue s) = True"
| "is_StringValue _ = False"

text \<open>
  \<open>Q(**{key: value})\<close> is \<open>Q [(key, value)]\<close>, the empty \<open>Q()\<close> is \<open>Q []\<close>;
  \<open>left & right\<close>, \<open>left | right\<close> and \<open>~r\<close> are \<open>Q_and\<close>, \<open>Q_or\<close> and \<open>Q_not\<close>.
\<close>

datatype q = Q "(string \<times> val) list" | Q_and q q | Q_or q q | Q_not q

text \<open>
  The messages of \<open>QueryException\<close>: \<open>'Invalid syntax for query'\<close>, and the two of
  \<open>binary_op_as_q\<close>, which keep their format arguments:
  \<open>'Unknown value "%s" for variable "%s"'\<close> and \<open>'Unknown variable "%s"'\<close>.
\<close>

datatype query_exception =
    Invalid_syntax
  | Unknown_value val string
  | Unknown_variable string

datatype error =
    QueryException query_exception
  | AssertionError
  | TypeError
  | KeyError string
  | IndexError
  | ObjectDoesNotExist
  | OtherError string

subsection \<open>Variables\<close>

text \<open>
  The fields of \<open>VariableBase\<close> the query compiler reads. \<open>model.objects.get\<close> is the
  database: \<open>model_objects_get v lookup value\<close> is the primary key of the instance
  found, or the exception raised. \<open>value_to_q\<close> is called with the variable itself.
\<close>

record variable_fields =
  name :: string
  attr :: attr_value
  gui_op :: string
  op_to_q_op :: "string \<Rightarrow> error + string"
  freetext :: bool
  model_objects_get :: "string \<Rightarrow> val \<Rightarrow> error + val"
  value_to_q_lookup :: string

record variable = variable_fields +
  value_to_q :: "variable_fields \<Rightarrow> string \<Rightarrow> val \<Rightarrow> error + q option"

definition PRECEDENCE :: "(string \<times> nat) list" where
  "PRECEDENCE = [(''and'', 3), (''or'', 2)]"

definition Q_OP_BY_OP :: "(string \<times> string) list" where
  "Q_OP_BY_OP =
     [(''>'', ''gt''), (''=>'', ''gte''), (''>='', ''gte''), (''<'', ''lt''),
      (''<='', ''lte''), (''=<'', ''lte''), (''='', ''iexact''), ('':'', ''icontains'')]"

text \<open>The default \<open>op_to_q_op\<close>: \<open>lambda op: Q_OP_BY_OP[op]\<close>.\<close>

definition default_op_to_q_op :: "string \<Rightarrow> error + string" where
  "default_op_to_q_op op =
     (case map_of Q_OP_BY_OP op of None \<Rightarrow> Inl (KeyError op) | Some s \<Rightarrow> Inr s)"

text \<open>
  \<open>Variable.case_sensitive\<close>:
  \<open>lambda op: {'=': 'exact', ':': 'contains'}.get(op) or Q_OP_BY_OP[op]\<close>.
\<close>

definition case_sensitive_op_to_q_op :: "string \<Rightarrow> error + string" where
  "case_sensitive_op_to_q_op op =
     (case map_of [(''='', ''exact''), ('':'', ''contains'')] op of
        Some s \<Rightarrow> Inr s
      | None \<Rightarrow> default_op_to_q_op op)"

text \<open>\<open>Variable.choice_queryset\<close>: \<open>lambda op: 'exact'\<close>.\<close>

definition choice_queryset_op_to_q_op :: "string \<Rightarrow> error + string" where
  "choice_queryset_op_to_q_op op = Inr ''exact''"

text \<open>
  \<open>variable.attr + suffix\<close> used as a keyword of \<open>Q\<close>: string concatenation, a
  \<open>TypeError\<close> when the attribute is \<open>None\<close> or \<open>MISSING\<close>.
\<close>

fun attr_plus :: "attr_value \<Rightarrow> string \<Rightarrow> error + string" where
  "attr_plus (Attr a) suffix = Inr (a @ suffix)"
| "attr_plus _ suffix = Inl TypeError"

definition default_value_to_q :: "variable_fields \<Rightarrow> string \<Rightarrow> val \<Rightarrow> error + q option" where
  "default_value_to_q variable op value_string_or_f =
     (if attr variable = AttrNone then Inr (Some (Q []))
      else
        let negated = (op = ''!='' \<or> op = ''!:'');
            op1 = (if negated then tl op else op);
            r = (if (case basestring value_string_or_f of
                       Some s \<Rightarrow> lower s = ''null''
                     | None \<Rightarrow> False)
                 then (case attr_plus (attr variable) [] of
                         Inl e \<Rightarrow> Inl e
                       | Inr key \<Rightarrow> Inr (Q [(key, PyNone)]))
                 else (case attr_plus (attr variable) ''__'' of
                         Inl e \<Rightarrow> Inl e
                       | Inr prefix \<Rightarrow>
                           (case op_to_q_op variable op1 of
                              Inl e \<Rightarrow> Inl e
                            | Inr q_op \<Rightarrow> Inr (Q [(prefix @ q_op, value_string_or_f)]))))
        in (case r of
              Inl e \<Rightarrow> Inl e
            | Inr r1 \<Rightarrow> if negated then Inr (Some (Q_not r1)) else Inr (Some r1)))"

text \<open>
  The function \<open>choice_queryset_value_to_q\<close> of \<open>Variable.choice_queryset\<close>; of the
  exceptions of the lookup only \<open>ObjectDoesNotExist\<close> is caught.
\<close>

definition choice_queryset_value_to_q ::
    "variable_fields \<Rightarrow> string \<Rightarrow> val \<Rightarrow> error + q option" where
  "choice_queryset_value_to_q variable op value_string_or_f =
     (if op \<noteq> ''='' then Inl AssertionError
      else if attr variable = AttrNone then Inr (Some (Q []))
      else
        (case model_objects_get variable (value_to_q_lookup variable) value_string_or_f of
           Inl e \<Rightarrow> if e = ObjectDoesNotExist then Inr None else Inl e
         | Inr pk \<Rightarrow>
             (case attr_plus (attr variable) ''__pk'' of
                Inl e \<Rightarrow> Inl e
              | Inr key \<Rightarrow> Inr (Some (Q [(key, pk)])))))"

subsection \<open>The query object\<close>

record query =
  variables :: "variable list"
  variable_by_name :: "string \<rightharpoonup> variable"

text \<open>
  The argument of \<open>Query.__init__\<close>: left out (\<open>None\<close>), a dict from names to
  variables (the declarative case, in the order of \<open>items()\<close>), or a list.
\<close>

datatype variables_arg =
    NoVariables
  | DictOfVariables "(string \<times> variable) list"
  | ListOfVariables "variable list"

text \<open>
  \<open>merged(variable, name=name)\<close> builds the variable again with the name replaced, so
  \<open>Variable.__init__\<close> runs on it: a \<open>MISSING\<close> attribute becomes the name when the name
  is not empty.
\<close>

definition merged_name :: "variable \<Rightarrow> string \<Rightarrow> variable" where
  "merged_name v n =
     v\<lparr>name := n, attr := (if n \<noteq> [] \<and> attr v = MISSING then Attr n else attr v)\<rparr>"

text \<open>
  \<open>{variable.name: variable for variable in self.variables}\<close>: a later variable
  replaces an earlier one of the same name.
\<close>

definition by_name :: "variable list \<Rightarrow> (string \<rightharpoonup> variable)" where
  "by_name vs = foldl (\<lambda>m v. m(name v \<mapsto> v)) Map.empty vs"

definition Query :: "variable list \<Rightarrow> query" where
  "Query vs = \<lparr>variables = vs, variable_by_name = by_name vs\<rparr>"

definition Query_init :: "variables_arg \<Rightarrow> error + query" where
  "Query_init arg =
     (case arg of
        NoVariables \<Rightarrow> Inl AssertionError
      | DictOfVariables kvs \<Rightarrow> Inr (Query (map (\<lambda>(n, v). merged_name v n) kvs))
      | ListOfVariables vs \<Rightarrow> Inr (Query vs))"

subsection \<open>The parse actions\<close>

text \<open>
  The value handed to \<open>value_to_q\<close>: an unquoted string whose lower-cased form is a key
  of \<open>variable_by_name\<close> becomes \<open>F\<close> of that variable's attribute, everything else is
  passed on as it is.
\<close>

definition value_or_f :: "query \<Rightarrow> val \<Rightarrow> val" where
  "value_or_f self value_string_or_variable_name =
     (case (if is_StringValue value_string_or_variable_name then None
            else basestring value_string_or_variable_name) of
        Some s \<Rightarrow>
          (case variable_by_name self (lower s) of
             Some other \<Rightarrow> F (attr other)
           | None \<Rightarrow> value_string_or_variable_name)
      | None \<Rightarrow> value_string_or_variable_name)"

text \<open>
  \<open>binary_op_as_q\<close> receives the three tokens of a statement
  \<open>variable_name operator value\<close>.
\<close>

definition binary_op_as_q :: "query \<Rightarrow> string \<times> string \<times> val \<Rightarrow> error + q" where
  "binary_op_as_q self token =
     (case token of (variable_name, op, value_string_or_variable_name) \<Rightarrow>
        (case variable_by_name self (lower variable_name) of
           Some variable \<Rightarrow>
             (let value_string_or_f = value_or_f self value_string_or_variable_name
              in (case value_to_q variable (variable_fields.truncate variable) op
                         value_string_or_f of
                    Inl e \<Rightarrow> Inl e
                  | Inr None \<Rightarrow>
                      Inl (QueryException (Unknown_value value_string_or_f (name variable)))
                  | Inr (Some result) \<Rightarrow> Inr result))
         | None \<Rightarrow> Inl (QueryException (Unknown_variable variable_name))))"

text \<open>
  The list comprehension of \<open>freetext_as_q\<close>: one predicate for every free-text
  variable, in the order of \<open>self.variables\<close>; the first exception ends it.
\<close>

fun freetext_qs :: "variable list \<Rightarrow> string \<Rightarrow> error + q list" where
  "freetext_qs [] token = Inr []"
| "freetext_qs (variable # rest) token =
     (if freetext variable then
        (case attr_plus (attr variable) ''__'' of
           Inl e \<Rightarrow> Inl e
         | Inr prefix \<Rightarrow>
             (case op_to_q_op variable '':'' of
                Inl e \<Rightarrow> Inl e
              | Inr q_op \<Rightarrow>
                  (case freetext_qs rest token of
                     Inl e \<Rightarrow> Inl e
                   | Inr qs \<Rightarrow> Inr (Q [(prefix @ q_op, PyStr token)] # qs))))
      else freetext_qs rest token)"

text \<open>\<open>reduce(operator.or_, qs)\<close>; a \<open>TypeError\<close> on the empty list.\<close>

fun reduce_or :: "q list \<Rightarrow> error + q" where
  "reduce_or [] = Inl TypeError"
| "reduce_or (x # xs) = Inr (foldl Q_or x xs)"

definition freetext_as_q :: "query \<Rightarrow> string list \<Rightarrow> error + q" where
  "freetext_as_q self token =
     (if \<not> list_ex freetext (variables self) then Inl AssertionError
      else
        (case token of
           [t] \<Rightarrow>
             (case freetext_qs (variables self) (strip_quotes t) of
                Inl e \<Rightarrow> Inl e
              | Inr qs \<Rightarrow> reduce_or qs)
         | _ \<Rightarrow> Inl AssertionError))"

subsection \<open>Compilation of the parsed tokens\<close>

text \<open>
  What \<open>compile\<close> iterates over: a nested \<open>ParseResults\<close>, a \<open>Q\<close> returned by a parse
  action, or a string (a keyword, a parenthesis).
\<close>

datatype token = ParseResults "token list" | TQ q | TStr string

text \<open>The elements of \<open>items\<close> and of the postfix sequence: a \<open>Q\<close> or a string.\<close>

datatype item = Pred q | Op string

text \<open>
  The loop of \<open>__rpn_to_q\<close>; the head of \<open>stack\<close> is the top. \<open>stack.pop()\<close> on an
  empty stack is an \<open>IndexError\<close>.
\<close>

fun rpn_loop :: "item list \<Rightarrow> q list \<Rightarrow> error + q list" where
  "rpn_loop [] stack = Inr stack"
| "rpn_loop (Pred p # tokens) stack = rpn_loop tokens (p # stack)"
| "rpn_loop (Op op # tokens) stack =
     (case stack of
        right # left # stack1 \<Rightarrow>
          rpn_loop tokens ((if op = ''and'' then Q_and left right else Q_or left right) # stack1)
      | _ \<Rightarrow> Inl IndexError)"

definition rpn_to_q :: "item list \<Rightarrow> error + q" where
  "rpn_to_q tokens =
     (case rpn_loop tokens [] of
        Inl e \<Rightarrow> Inl e
      | Inr stack \<Rightarrow> (case stack of [p] \<Rightarrow> Inr p | _ \<Rightarrow> Inl AssertionError))"

text \<open>
  The inner \<open>while stack\<close> of \<open>__to_rpn\<close>: operators of precedence at least \<open>p1\<close> leave
  the stack for the output.
\<close>

fun pop_while :: "nat \<Rightarrow> (string \<times> nat) list \<Rightarrow> item list \<Rightarrow> (string \<times> nat) list \<times> item list" where
  "pop_while p1 [] result_q = ([], result_q)"
| "pop_while p1 ((t2, p2) # stack) result_q =
     (if p1 \<le> p2 then pop_while p1 stack (result_q @ [Op t2])
      else ((t2, p2) # stack, result_q))"

fun to_rpn_loop :: "item list \<Rightarrow> item list \<Rightarrow> (string \<times> nat) list \<Rightarrow> item list \<times> (string \<times> nat) list" where
  "to_rpn_loop [] result_q stack = (result_q, stack)"
| "to_rpn_loop (Pred p # tokens) result_q stack = to_rpn_loop tokens (result_q @ [Pred p]) stack"
| "to_rpn_loop (Op t # tokens) result_q stack =
     (case map_of PRECEDENCE t of
        Some p1 \<Rightarrow>
          (case pop_while p1 stack result_q of
             (stack1, result1) \<Rightarrow> to_rpn_loop tokens result1 ((t, p1) # stack1))
      | None \<Rightarrow> to_rpn_loop tokens result_q stack)"

definition to_rpn :: "item list \<Rightarrow> item list" where
  "to_rpn tokens =
     (if length tokens = 1 then tokens
      else
        (case to_rpn_loop tokens [] [] of
           (result_q, stack) \<Rightarrow> result_q @ map (\<lambda>(t, p). Op t) stack))"

fun compile :: "token list \<Rightarrow> error + q"
  and compile_items :: "token list \<Rightarrow> error + item list" where
  "compile tokens =
     (case compile_items tokens of
        Inl e \<Rightarrow> Inl e
      | Inr items \<Rightarrow> rpn_to_q (to_rpn items))"
| "compile_items [] = Inr []"
| "compile_items (ParseResults ts # tokens) =
     (case compile ts of
        Inl e \<Rightarrow> Inl e
      | Inr p \<Rightarrow>
          (case compile_items tokens of
             Inl e \<Rightarrow> Inl e
           | Inr items \<Rightarrow> Inr (Pred p # items)))"
| "compile_items (TQ p # tokens) =
     (case compile_items tokens of
        Inl e \<Rightarrow> Inl e
      | Inr items \<Rightarrow> Inr (Pred p # items))"
| "compile_items (TStr s # tokens) =
     (if s = ''and'' \<or> s = ''or'' then
        (case compile_items tokens of
           Inl e \<Rightarrow> Inl e
         | Inr items \<Rightarrow> Inr (Op s # items))
      else compile_items tokens)"

subsection \<open>The shape of a parse\<close>

text \<open>
  The grammar of \<open>_grammar\<close>:
  \<open>where_condition = Group(operator_statement | '(' + where_expression + ')')\<close> and
  \<open>where_expression << where_condition + ZeroOrMore((and_ | or_) + where_expression)\<close>.
  The inner \<open>where_expression\<close> takes every connective that follows, so the repetition
  runs at most once. The type parameter is what stands at a statement: the tokens of
  the statement before its parse action has run, its \<open>Q\<close> after.
\<close>

datatype connective = And | Or

fun keyword :: "connective \<Rightarrow> string" where
  "keyword And = ''and''"
| "keyword Or = ''or''"

datatype 'a where_condition =
    Statement 'a
  | Parens "'a where_expression"
and 'a where_expression =
    Single "'a where_condition"
  | Chain "'a where_condition" connective "'a where_expression"

datatype operator_statement = Binary "string \<times> string \<times> val" | Freetext "string list"

text \<open>
  The tokens pyparsing builds once the parse actions have returned: every
  \<open>where_condition\<close> is a \<open>Group\<close>, the parentheses are kept as strings, a caseless
  \<open>Keyword\<close> yields the keyword as it was defined.
\<close>

fun condition_tokens :: "q where_condition \<Rightarrow> token"
  and expression_tokens :: "q where_expression \<Rightarrow> token list" where
  "condition_tokens (Statement p) = ParseResults [TQ p]"
| "condition_tokens (Parens e) = ParseResults (TStr ''('' # expression_tokens e @ [TStr '')''])"
| "expression_tokens (Single c) = [condition_tokens c]"
| "expression_tokens (Chain c k e) = condition_tokens c # TStr (keyword k) # expression_tokens e"

text \<open>\<open>query_statement << Group(where_expression)\<close>.\<close>

definition query_statement_tokens :: "q where_expression \<Rightarrow> token list" where
  "query_statement_tokens e = [ParseResults (expression_tokens e)]"

definition statement_as_q :: "query \<Rightarrow> operator_statement \<Rightarrow> error + q" where
  "statement_as_q self s =
     (case s of Binary token \<Rightarrow> binary_op_as_q self token
              | Freetext token \<Rightarrow> freetext_as_q self token)"

text \<open>The parse actions run while the text is read, from left to right.\<close>

fun condition_actions :: "query \<Rightarrow> operator_statement where_condition \<Rightarrow> error + q where_condition"
  and expression_actions :: "query \<Rightarrow> operator_statement where_expression \<Rightarrow> error + q where_expression" where
  "condition_actions self (Statement s) =
     (case statement_as_q self s of Inl e \<Rightarrow> Inl e | Inr p \<Rightarrow> Inr (Statement p))"
| "condition_actions self (Parens e) =
     (case expression_actions self e of Inl err \<Rightarrow> Inl err | Inr e1 \<Rightarrow> Inr (Parens e1))"
| "expression_actions self (Single c) =
     (case condition_actions self c of Inl err \<Rightarrow> Inl err | Inr c1 \<Rightarrow> Inr (Single c1))"
| "expression_actions self (Chain c k e) =
     (case condition_actions self c of
        Inl err \<Rightarrow> Inl err
      | Inr c1 \<Rightarrow>
          (case expression_actions self e of
             Inl err \<Rightarrow> Inl err
           | Inr e1 \<Rightarrow> Inr (Chain c1 k e1)))"

text \<open>
  \<open>Query.parse\<close>, after pyparsing has read the stripped string: the string was empty,
  or \<open>parseString\<close> raised \<open>ParseException\<close>, or it matched a \<open>where_expression\<close>.
\<close>

datatype query_string = EmptyString | NoParse | Parsed "operator_statement where_expression"

definition parse :: "query \<Rightarrow> query_string \<Rightarrow> error + q" where
  "parse self query_string =
     (case query_string of
        EmptyString \<Rightarrow> Inr (Q [])
      | NoParse \<Rightarrow> Inl (QueryException Invalid_syntax)
      | Parsed e \<Rightarrow>
          (case expression_actions self e of
             Inl err \<Rightarrow> Inl err
           | Inr tokens \<Rightarrow> compile (query_statement_tokens tokens)))"

subsection \<open>Precedence, as a specification\<close>

text \<open>
  A chain \<open>p0 k1 p1 ... kn pn\<close> read with \<open>and\<close> binding tighter than \<open>or\<close>: cut the chain
  at every \<open>or\<close>, join each piece with \<open>&\<close> and the pieces with \<open>|\<close>, both from the left.
\<close>

fun and_runs :: "q \<Rightarrow> (connective \<times> q) list \<Rightarrow> q list list" where
  "and_runs p [] = [[p]]"
| "and_runs p ((And, p1) # rest) =
     (case and_runs p1 rest of r # rs \<Rightarrow> (p # r) # rs | [] \<Rightarrow> [[p]])"
| "and_runs p ((Or, p1) # rest) = [p] # and_runs p1 rest"

fun join_left :: "(q \<Rightarrow> q \<Rightarrow> q) \<Rightarrow> q list \<Rightarrow> q" where
  "join_left f [] = Q []"
| "join_left f (p # ps) = foldl f p ps"

definition grouped :: "q \<Rightarrow> (connective \<times> q) list \<Rightarrow> q" where
  "grouped p rest = join_left Q_or (map (join_left Q_and) (and_runs p rest))"

text \<open>
  The predicate an expression stands for: a parenthesised expression is one operand of
  the chain around it.
\<close>

fun denote_condition :: "q where_condition \<Rightarrow> q"
  and operands :: "q where_expression \<Rightarrow> q \<times> (connective \<times> q) list"
  and denote :: "q where_expression \<Rightarrow> q" where
  "denote_condition (Statement p) = p"
| "denote_condition (Parens e) = denote e"
| "operands (Single c) = (denote_condition c, [])"
| "operands (Chain c k e) =
     (case operands e of (p1, rest) \<Rightarrow> (denote_condition c, (k, p1) # rest))"
| "denote e = (case operands e of (p, rest) \<Rightarrow> grouped p rest)"

subsection \<open>The shunting-yard loop, step by step\<close>

text \<open>The items \<open>compile\<close> collects for a chain of operands.\<close>

definition chain_items :: "q \<Rightarrow> (connective \<times> q) list \<Rightarrow> item list" where
  "chain_items p rest = Pred p # concat (map (\<lambda>(k, p1). [Op (keyword k), Pred p1]) rest)"

text \<open>The operands of the first piece after its head, and the other pieces.\<close>

fun split_runs :: "(connective \<times> q) list \<Rightarrow> q list \<times> q list list" where
  "split_runs [] = ([], [])"
| "split_runs ((And, p1) # rest) = (case split_runs rest of (t, rs) \<Rightarrow> (p1 # t, rs))"
| "split_runs ((Or, p1) # rest) = (case split_runs rest of (t, rs) \<Rightarrow> ([], (p1 # t) # rs))"

text \<open>
  What the two stacks of the loop stand for after an operand has been read: the
  disjunction finished so far, if any, and the conjunction still open.
\<close>

fun climb :: "q option \<times> q \<Rightarrow> connective \<times> q \<Rightarrow> q option \<times> q" where
  "climb (acc, run) (And, p) = (acc, Q_and run p)"
| "climb (None, run) (Or, p) = (Some run, p)"
| "climb (Some l, run) (Or, p) = (Some (Q_or l run), p)"

fun finish :: "q option \<times> q \<Rightarrow> q" where
  "finish (None, run) = run"
| "finish (Some l, run) = Q_or l run"

text \<open>
  The four shapes of the value stack (of the output read so far) and the operator
  stack, each with what it stands for.
\<close>

fun shunted :: "q list \<Rightarrow> (string \<times> nat) list \<Rightarrow> q option \<times> q \<Rightarrow> bool" where
  "shunted [x] [] s = (s = (None, x))"
| "shunted [r, l] [(t, n)] s =
     ((t = ''and'' \<and> n = 3 \<and> s = (None, Q_and l r)) \<or> (t = ''or'' \<and> n = 2 \<and> s = (Some l, r)))"
| "shunted [r, m, l] [(t1, n1), (t2, n2)] s =
     (t1 = ''and'' \<and> n1 = 3 \<and> t2 = ''or'' \<and> n2 = 2 \<and> s = (Some l, Q_and m r))"
| "shunted _ _ s = False"

subsection \<open>Example variables\<close>

text \<open>
  \<open>Variable(name=n, attr=a, freetext=ft)\<close>: the other fields keep the defaults of
  \<open>VariableBase\<close>; without a model, \<open>variable.model.objects\<close> is an \<open>AttributeError\<close>.
\<close>

definition Variable :: "string \<Rightarrow> attr_value \<Rightarrow> bool \<Rightarrow> variable" where
  "Variable n a ft =
     \<lparr>name = n, attr = a, gui_op = ''='', op_to_q_op = default_op_to_q_op, freetext = ft,
      model_objects_get = (\<lambda>lookup v. Inl (OtherError ''AttributeError'')),
      value_to_q_lookup = [], value_to_q = default_value_to_q\<rparr>"

text \<open>
  \<open>Variable.choice_queryset(name=n, attr=a, model=..., choices=...)\<close> over a database
  whose lookup is \<open>get\<close>.
\<close>

definition Variable_choice_queryset ::
    "string \<Rightarrow> attr_value \<Rightarrow> (string \<Rightarrow> val \<Rightarrow> error + val) \<Rightarrow> variable" where
  "Variable_choice_queryset n a get =
     \<lparr>name = n, attr = a, gui_op = ''='', op_to_q_op = choice_queryset_op_to_q_op,
      freetext = False, model_objects_get = get, value_to_q_lookup = ''name'',
      value_to_q = choice_queryset_value_to_q\<rparr>"

text \<open>The statement \<open>a:n\<close> and the predicate it compiles to.\<close>

definition a_is :: "int \<Rightarrow> operator_statement" where
  "a_is n = Binary (''a'', '':'', PyInt n)"

definition a_has :: "int \<Rightarrow> q" where
  "a_has n = Q [(''a__icontains'', PyInt n)]"

text \<open>Two databases: one where every lookup finds the instance 1, one where none does.\<close>

definition found_1 :: "string \<Rightarrow> val \<Rightarrow> error + val" where
  "found_1 lookup v = Inr (PyInt 1)"

definition not_found :: "string \<Rightarrow> val \<Rightarrow> error + val" where
  "not_found lookup v = Inl ObjectDoesNotExist"

text \<open>The text of a double-quoted string, as \<open>quotedString\<close> matches it.\<close>

definition quoted :: "string \<Rightarrow> string" where
  "quoted s = CHR 0x22 # s @ [CHR 0x22]"

text \<open>
  The predicate of a free-text search for \<open>text\<close> on the attribute \<open>a\<close>, where the
  variable's \<open>op_to_q_op\<close> maps \<open>':'\<close> to \<open>s\<close>.
\<close>

definition freetext_leaf :: "string \<Rightarrow> string \<times> string \<Rightarrow> q" where
  "freetext_leaf text as = (case as of (a, s) \<Rightarrow> Q [(a @ ''__'' @ s, PyStr text)])"

text \<open>The attribute and the \<open>':'\<close> suffix of a variable on which both exist.\<close>

definition has_path :: "string \<times> string \<Rightarrow> attr_value \<times> (error + string)" where
  "has_path as = (case as of (a, s) \<Rightarrow> (Attr a, Inr s))"

definition path_of :: "variable \<Rightarrow> attr_value \<times> (error + string)" where
  "path_of v = (attr v, op_to_q_op v '':'')"

section \<open>Properties\<close>

subsection \<open>The postfix conversion computes the grouping by precedence\<close>

lemma and_runs_split: "and_runs p rest = (case split_runs rest of (t, rs) \<Rightarrow> (p # t) # rs)"
  by (induction p rest rule: and_runs.induct) (simp_all split: prod.splits)

lemma finish_climb:
  "finish (foldl climb (acc, run) rest) =
     (case split_runs rest of (t, rs) \<Rightarrow>
        foldl Q_or (finish (acc, foldl Q_and run t)) (map (join_left Q_and) rs))"
proof (induction rest arbitrary: acc run)
  case Nil
  show ?case by simp
next
  case (Cons kp rest)
  obtain k p where kp: "kp = (k, p)" by (cases kp)
  show ?case
  proof (cases k)
    case And
    then show ?thesis using Cons.IH [of acc "Q_and run p"] kp
      by (simp split: prod.splits)
  next
    case Or
    then show ?thesis using Cons.IH [of "Some (finish (acc, run))" p] kp
      by (cases acc) (simp_all split: prod.splits)
  qed
qed

lemma finish_grouped: "finish (foldl climb (None, p) rest) = grouped p rest"
  by (simp add: finish_climb grouped_def and_runs_split split: prod.splits)

lemma rpn_loop_append:
  "rpn_loop (xs @ ys) st = (case rpn_loop xs st of Inl e \<Rightarrow> Inl e | Inr st1 \<Rightarrow> rpn_loop ys st1)"
proof (induction xs st rule: rpn_loop.induct)
  case (1 stack)
  show ?case by simp
next
  case (2 p tokens stack)
  then show ?case by simp
next
  case (3 op tokens stack)
  then show ?case by (simp split: list.splits)
qed

lemma shunted_cases:
  assumes "shunted vs stack s"
  obtains x where "vs = [x]" "stack = []" "s = (None, x)"
  | r l where "vs = [r, l]" "stack = [(''and'', 3)]" "s = (None, Q_and l r)"
  | r l where "vs = [r, l]" "stack = [(''or'', 2)]" "s = (Some l, r)"
  | r m l where "vs = [r, m, l]" "stack = [(''and'', 3), (''or'', 2)]" "s = (Some l, Q_and m r)"
  using assms by (induction vs stack s rule: shunted.induct) auto

lemma to_rpn_step:
  assumes "shunted vs stack s" and "rpn_loop res [] = Inr vs"
  shows "\<exists>res1 stack1 vs1.
           (\<forall>tokens. to_rpn_loop (Op (keyword k) # Pred p # tokens) res stack =
                      to_rpn_loop tokens res1 stack1)
           \<and> rpn_loop res1 [] = Inr vs1 \<and> shunted vs1 stack1 (climb s (k, p))"
proof -
  obtain st1 r1 where pw: "pop_while (if k = And then 3 else 2) stack res = (st1, r1)"
    by (cases "pop_while (if k = And then 3 else 2) stack res")
  have step: "\<forall>tokens. to_rpn_loop (Op (keyword k) # Pred p # tokens) res stack =
      to_rpn_loop tokens (r1 @ [Pred p]) ((keyword k, if k = And then 3 else 2) # st1)"
    using pw by (cases k) (simp_all add: PRECEDENCE_def)
  have "\<exists>vs1. rpn_loop (r1 @ [Pred p]) [] = Inr vs1
      \<and> shunted vs1 ((keyword k, if k = And then 3 else 2) # st1) (climb s (k, p))"
    using assms(1)
  proof (cases rule: shunted_cases)
    case (1 x)
    then show ?thesis using assms(2) pw
      by (cases k) (auto simp: rpn_loop_append)
  next
    case (2 r l)
    then show ?thesis using assms(2) pw
      by (cases k) (auto simp: rpn_loop_append)
  next
    case (3 r l)
    then show ?thesis using assms(2) pw
      by (cases k) (auto simp: rpn_loop_append)
  next
    case (4 r m l)
    then show ?thesis using assms(2) pw
      by (cases k) (auto simp: rpn_loop_append)
  qed
  with step show ?thesis by blast
qed

lemma to_rpn_chain:
  assumes "shunted vs stack s" and "rpn_loop res [] = Inr vs"
  shows "\<exists>res1 stack1 vs1.
           to_rpn_loop (concat (map (\<lambda>(k, p1). [Op (keyword k), Pred p1]) rest)) res stack =
             (res1, stack1)
           \<and> rpn_loop res1 [] = Inr vs1 \<and> shunted vs1 stack1 (foldl climb s rest)"
  using assms
proof (induction rest arbitrary: vs stack s res)
  case Nil
  then show ?case by simp
next
  case (Cons kp rest)
  obtain k p where kp: "kp = (k, p)" by (cases kp)
  from to_rpn_step [OF Cons.prems, of k p]
  obtain res1 stack1 vs1 where
    st: "\<And>tokens. to_rpn_loop (Op (keyword k) # Pred p # tokens) res stack =
                      to_rpn_loop tokens res1 stack1"
    and r: "rpn_loop res1 [] = Inr vs1" and sh: "shunted vs1 stack1 (climb s (k, p))"
    by blast
  from Cons.IH [OF sh r] show ?case using kp st by simp
qed

lemma shunted_flush:
  assumes "shunted vs stack s"
  shows "rpn_loop (map (\<lambda>(t, p). Op t) stack) vs = Inr [finish s]"
  using assms by (cases rule: shunted_cases) simp_all

lemma rpn_chain: "rpn_to_q (to_rpn (chain_items p rest)) = Inr (grouped p rest)"
proof (cases rest)
  case Nil
  then show ?thesis
    by (simp add: chain_items_def to_rpn_def rpn_to_q_def grouped_def)
next
  case (Cons kp rest1)
  have len: "length (chain_items p rest) \<noteq> 1"
    using Cons by (cases kp) (simp add: chain_items_def)
  have "shunted [p] [] (None, p)" and "rpn_loop [Pred p] [] = Inr [p]" by simp_all
  from to_rpn_chain [OF this, of rest]
  obtain res1 stack1 vs1 where
    l: "to_rpn_loop (concat (map (\<lambda>(k, p1). [Op (keyword k), Pred p1]) rest)) [Pred p] [] =
          (res1, stack1)"
    and r: "rpn_loop res1 [] = Inr vs1" and sh: "shunted vs1 stack1 (foldl climb (None, p) rest)"
    by blast
  have "to_rpn (chain_items p rest) = res1 @ map (\<lambda>(t, p). Op t) stack1"
    using len l by (simp add: to_rpn_def) (simp add: chain_items_def)
  then show ?thesis
    using r shunted_flush [OF sh] by (simp add: rpn_to_q_def rpn_loop_append finish_grouped)
qed

lemma compile_items_close:
  "compile_items (xs @ [TStr '')'']) = compile_items xs"
proof (induction xs)
  case Nil
  show ?case by simp
next
  case (Cons t xs)
  then show ?case by (cases t) (simp_all split: sum.splits)
qed

lemma compile_tokens:
  "compile_items (condition_tokens c # tokens) =
     (case compile_items tokens of
        Inl e \<Rightarrow> Inl e
      | Inr items \<Rightarrow> Inr (Pred (denote_condition c) # items))"
  "compile_items (expression_tokens e) =
     Inr (chain_items (fst (operands e)) (snd (operands e)))"
proof (induction c and e arbitrary: tokens and)
  case (Statement p)
  show ?case by (simp add: to_rpn_def rpn_to_q_def split: sum.splits)
next
  case (Parens e)
  then show ?case by (simp add: compile_items_close rpn_chain split: sum.splits prod.splits)
next
  case (Single c)
  then show ?case by (simp add: chain_items_def)
next
  case (Chain c k e)
  then show ?case by (cases k) (simp_all add: chain_items_def split: prod.splits)
qed

lemma compile_expression: "compile (expression_tokens e) = Inr (denote e)"
  by (simp add: compile_tokens rpn_chain split: prod.splits)

lemma compile_group: "compile [ParseResults ts] = compile ts"
proof (cases "compile ts")
  case (Inl err)
  then show ?thesis by (simp del: compile.simps add: compile.simps [of "[ParseResults ts]"])
next
  case (Inr p)
  then show ?thesis
    by (simp del: compile.simps add: compile.simps [of "[ParseResults ts]"] to_rpn_def rpn_to_q_def)
qed

subsection \<open>Errors of the parse actions reach the caller\<close>

lemma actions_all_ok:
  "condition_actions self c = Inr c1 \<Longrightarrow> s \<in> set_where_condition c \<Longrightarrow>
     \<exists>p. statement_as_q self s = Inr p"
  "expression_actions self e = Inr e1 \<Longrightarrow> s \<in> set_where_expression e \<Longrightarrow>
     \<exists>p. statement_as_q self s = Inr p"
  by (induction c and e arbitrary: c1 and e1) (auto split: sum.splits)

lemma parse_fails:
  assumes "s \<in> set_where_expression e" and "statement_as_q self s = Inl err"
  shows "\<exists>err1. parse self (Parsed e) = Inl err1"
proof (cases "expression_actions self e")
  case (Inl err1)
  then show ?thesis by (simp add: parse_def)
next
  case (Inr e1)
  from actions_all_ok(2) [OF Inr assms(1)] assms(2) show ?thesis by simp
qed

lemma parse_single:
  "parse self (Parsed (Single (Statement s))) = statement_as_q self s"
  by (cases "statement_as_q self s")
     (simp_all add: parse_def query_statement_tokens_def to_rpn_def rpn_to_q_def)

subsection \<open>Evaluation of the examples\<close>

lemmas eval_simps = Query_def by_name_def Variable_def Variable_choice_queryset_def
  binary_op_as_q_def value_or_f_def default_value_to_q_def choice_queryset_value_to_q_def
  default_op_to_q_op_def choice_queryset_op_to_q_op_def Q_OP_BY_OP_def
  lower_def lower_char_def variable_fields.truncate_def statement_as_q_def
  freetext_as_q_def strip_quotes_def

lemma a_is_q:
  "statement_as_q (Query [Variable ''a'' (Attr ''a'') False]) (a_is n) = Inr (a_has n)"
  by (simp add: eval_simps a_is_def a_has_def)

subsection \<open>The claims\<close>

text \<open>
  C1. Once the parse actions of a query have returned their predicates, \<open>parse\<close> yields
  the predicate that groups the query with \<open>and\<close> binding tighter than \<open>or\<close>, every
  parenthesised subexpression reduced to one operand of the chain around it (\<open>denote\<close>).
  So \<open>s1 or s2 and s3\<close> yields \<open>Q_or p1 (Q_and p2 p3)\<close> and \<open>(s1 or s2) and s3\<close> yields
  \<open>Q_and (Q_or p1 p2) p3\<close>.
\<close>

theorem compile_precedence:
  assumes "expression_actions self e = Inr e1"
  shows "parse self (Parsed e) = Inr (denote e1)
       \<and> compile (query_statement_tokens e1) = Inr (denote e1)
       \<and> denote (Chain (Statement p1) Or (Chain (Statement p2) And (Single (Statement p3))))
           = Q_or p1 (Q_and p2 p3)
       \<and> denote (Chain (Parens (Chain (Statement p1) Or (Single (Statement p2)))) And
            (Single (Statement p3))) = Q_and (Q_or p1 p2) p3"
  using assms
  by (simp add: parse_def query_statement_tokens_def compile_group compile_expression
      grouped_def del: compile.simps)

theorem compile_precedence_witness:
  "expression_actions (Query [Variable ''a'' (Attr ''a'') False])
     (Chain (Statement (a_is 1)) Or (Chain (Statement (a_is 2)) And (Single (Statement (a_is 3)))))
     = Inr (Chain (Statement (a_has 1)) Or
         (Chain (Statement (a_has 2)) And (Single (Statement (a_has 3)))))
   \<and> parse (Query [Variable ''a'' (Attr ''a'') False])
     (Parsed (Chain (Statement (a_is 1)) Or
        (Chain (Statement (a_is 2)) And (Single (Statement (a_is 3))))))
     = Inr (Q_or (a_has 1) (Q_and (a_has 2) (a_has 3)))
   \<and> parse (Query [Variable ''a'' (Attr ''a'') False])
     (Parsed (Chain (Parens (Chain (Statement (a_is 1)) Or (Single (Statement (a_is 2))))) And
         (Single (Statement (a_is 3)))))
     = Inr (Q_and (Q_or (a_has 1) (a_has 2)) (a_has 3))"
proof -
  let ?self = "Query [Variable ''a'' (Attr ''a'') False]"
  have 1: "expression_actions ?self
      (Chain (Statement (a_is 1)) Or (Chain (Statement (a_is 2)) And (Single (Statement (a_is 3)))))
      = Inr (Chain (Statement (a_has 1)) Or
          (Chain (Statement (a_has 2)) And (Single (Statement (a_has 3)))))"
    by (simp add: a_is_q)
  have 2: "expression_actions ?self
      (Chain (Parens (Chain (Statement (a_is 1)) Or (Single (Statement (a_is 2))))) And
         (Single (Statement (a_is 3))))
      = Inr (Chain (Parens (Chain (Statement (a_has 1)) Or (Single (Statement (a_has 2))))) And
         (Single (Statement (a_has 3))))"
    by (simp add: a_is_q)
  show ?thesis
    using 1 compile_precedence [OF 1, of "a_has 1" "a_has 2" "a_has 3"]
          compile_precedence [OF 2, of "a_has 1" "a_has 2" "a_has 3"]
    by (simp del: compile.simps)
qed

text \<open>
  C2. Whenever the \<open>value_to_q\<close> of the variable a statement names returns \<open>None\<close> for the
  statement's value, \<open>binary_op_as_q\<close> raises the \<open>QueryException\<close> "Unknown value ... for
  variable ..." with that value and the variable's name. A query made of the statement
  fails with this exception, and no query that contains the statement compiles to a
  predicate.
\<close>

theorem unresolved_value_raises:
  assumes "variable_by_name self (lower variable_name) = Some variable"
    and "value_to_q variable (variable_fields.truncate variable) op (value_or_f self v) = Inr None"
  shows "binary_op_as_q self (variable_name, op, v) =
           Inl (QueryException (Unknown_value (value_or_f self v) (name variable)))
       \<and> parse self (Parsed (Single (Statement (Binary (variable_name, op, v))))) =
           Inl (QueryException (Unknown_value (value_or_f self v) (name variable)))
       \<and> (Binary (variable_name, op, v) \<in> set_where_expression e \<longrightarrow>
            (\<exists>err. parse self (Parsed e) = Inl err))"
proof -
  have b: "binary_op_as_q self (variable_name, op, v) =
           Inl (QueryException (Unknown_value (value_or_f self v) (name variable)))"
    using assms by (simp add: binary_op_as_q_def)
  then have s: "statement_as_q self (Binary (variable_name, op, v)) =
           Inl (QueryException (Unknown_value (value_or_f self v) (name variable)))"
    by (simp add: statement_as_q_def)
  show ?thesis using b s parse_fails [OF _ s, of e] by (simp add: parse_single)
qed

text \<open>
  The lookup of a \<open>choice_queryset\<close> variable finds no instance: \<open>Make = "saab"\<close> raises,
  alone and in front of \<open>or a:1\<close>.
\<close>

theorem unresolved_value_raises_witness:
  "variable_by_name (Query [Variable_choice_queryset ''make'' (Attr ''make'') not_found])
       (lower ''Make'') = Some (Variable_choice_queryset ''make'' (Attr ''make'') not_found)
   \<and> choice_queryset_value_to_q
       (variable_fields.truncate (Variable_choice_queryset ''make'' (Attr ''make'') not_found))
       ''='' (StringValue ''saab'') = Inr None
   \<and> parse (Query [Variable_choice_queryset ''make'' (Attr ''make'') not_found])
       (Parsed (Single (Statement (Binary (''Make'', ''='', StringValue ''saab''))))) =
       Inl (QueryException (Unknown_value (StringValue ''saab'') ''make''))
   \<and> isl (parse (Query [Variable_choice_queryset ''make'' (Attr ''make'') not_found])
       (Parsed (Chain (Statement (Binary (''Make'', ''='', StringValue ''saab''))) Or
          (Single (Statement (a_is 1))))))"
proof -
  let ?v = "Variable_choice_queryset ''make'' (Attr ''make'') not_found"
  let ?e = "Chain (Statement (Binary (''Make'', ''='', StringValue ''saab''))) Or
          (Single (Statement (a_is 1)))"
  have 1: "variable_by_name (Query [?v]) (lower ''Make'') = Some ?v"
    by (simp add: Query_def by_name_def lower_def lower_char_def Variable_choice_queryset_def)
  have f: "value_or_f (Query [?v]) (StringValue ''saab'') = StringValue ''saab''"
    by (simp add: value_or_f_def)
  have c: "choice_queryset_value_to_q (variable_fields.truncate ?v) ''='' (StringValue ''saab'')
      = Inr None"
    by (simp add: choice_queryset_value_to_q_def Variable_choice_queryset_def
        variable_fields.truncate_def not_found_def)
  have 2: "value_to_q ?v (variable_fields.truncate ?v) ''='' (value_or_f (Query [?v])
      (StringValue ''saab'')) = Inr None"
    using c by (simp add: f) (simp add: Variable_choice_queryset_def)
  have n: "name ?v = ''make''" by (simp add: Variable_choice_queryset_def)
  have m: "Binary (''Make'', ''='', StringValue ''saab'') \<in> set_where_expression ?e" by simp
  from unresolved_value_raises [OF 1 2, of ?e] m
  have "\<exists>err. parse (Query [?v]) (Parsed ?e) = Inl err" by blast
  then have i: "isl (parse (Query [?v]) (Parsed ?e))" by auto
  show ?thesis
    using 1 c i unresolved_value_raises [OF 1 2, of ?e] by (simp add: f n)
qed

text \<open>
  C3, as stated, fails: with the operator \<open>!=\<close> the value \<open>null\<close> compiles to the negation
  of the "attribute is none" predicate, not to that predicate.
\<close>

theorem null_regardless_of_operator_counterexample:
  "binary_op_as_q (Query [Variable ''price'' (Attr ''price'') False])
       (''price'', ''!='', PyStr ''null'') = Inr (Q_not (Q [(''price'', PyNone)]))
   \<and> binary_op_as_q (Query [Variable ''price'' (Attr ''price'') False])
       (''price'', ''!='', PyStr ''null'') \<noteq> Inr (Q [(''price'', PyNone)])"
  by (simp add: eval_simps)

text \<open>
  C3, amended. For a variable that uses \<open>default_value_to_q\<close> and has an attribute path, in
  a query object with no variable named \<open>null\<close>, a statement whose value is the unquoted
  literal \<open>null\<close> in any letter case compiles to the "attribute is none" predicate on that
  path whatever operator other than \<open>!=\<close> and \<open>!:\<close> is written, and to the negation of
  that predicate for \<open>!=\<close> and \<open>!:\<close>.
\<close>

theorem null_literal:
  assumes "variable_by_name self (lower variable_name) = Some variable"
    and "value_to_q variable = default_value_to_q"
    and "attr variable = Attr a"
    and "lower s = ''null''"
    and "variable_by_name self ''null'' = None"
  shows "binary_op_as_q self (variable_name, op, PyStr s) =
           Inr (if op = ''!='' \<or> op = ''!:'' then Q_not (Q [(a, PyNone)]) else Q [(a, PyNone)])"
  using assms
  by (simp add: binary_op_as_q_def value_or_f_def default_value_to_q_def
      variable_fields.truncate_def)

theorem null_literal_witness:
  "binary_op_as_q (Query [Variable ''price'' (Attr ''price'') False])
       (''Price'', ''<'', PyStr ''NULL'') = Inr (Q [(''price'', PyNone)])
   \<and> binary_op_as_q (Query [Variable ''price'' (Attr ''price'') False])
       (''Price'', ''!:'', PyStr ''NULL'') = Inr (Q_not (Q [(''price'', PyNone)]))"
proof -
  let ?v = "Variable ''price'' (Attr ''price'') False"
  have 1: "variable_by_name (Query [?v]) (lower ''Price'') = Some ?v"
    by (simp add: Query_def by_name_def lower_def lower_char_def Variable_def)
  have 2: "value_to_q ?v = default_value_to_q" by (simp add: Variable_def)
  have 3: "attr ?v = Attr ''price''" by (simp add: Variable_def)
  have 4: "lower ''NULL'' = ''null''" by (simp add: lower_def lower_char_def)
  have 5: "variable_by_name (Query [?v]) ''null'' = None"
    by (simp add: Query_def by_name_def Variable_def)
  show ?thesis
    using null_literal [OF 1 2 3 4 5, of "''<''"] null_literal [OF 1 2 3 4 5, of "''!:''"]
    by simp
qed

text \<open>
  C4. The unquoted value \<open>B\<close> matches the variable declared as \<open>B\<close> without regard to
  case, yet \<open>a = B\<close> compiles to a comparison with the string \<open>'B'\<close>: the value is
  lower-cased before the lookup, the keys of \<open>variable_by_name\<close> are the names as
  declared. With the variable declared as \<open>b\<close> the same statement compiles to a
  comparison with \<open>F\<close> of its attribute, and the quoted \<open>"B"\<close> to a comparison with the
  string.
\<close>

theorem field_reference_upper_case_name:
  "binary_op_as_q
       (Query [Variable ''a'' (Attr ''a'') False, Variable ''B'' (Attr ''b'') False])
       (''a'', ''='', PyStr ''B'') = Inr (Q [(''a__iexact'', PyStr ''B'')])
   \<and> binary_op_as_q
       (Query [Variable ''a'' (Attr ''a'') False, Variable ''b'' (Attr ''b'') False])
       (''a'', ''='', PyStr ''B'') = Inr (Q [(''a__iexact'', F (Attr ''b''))])
   \<and> binary_op_as_q
       (Query [Variable ''a'' (Attr ''a'') False, Variable ''b'' (Attr ''b'') False])
       (''a'', ''='', StringValue ''B'') = Inr (Q [(''a__iexact'', StringValue ''B'')])"
  by (simp add: eval_simps)

subsection \<open>The table of variables\<close>

lemma by_name_snoc: "by_name (vs @ [v]) = (by_name vs)(name v \<mapsto> v)"
  by (simp add: by_name_def)

lemma by_name_distinct:
  "distinct (map name vs) \<Longrightarrow> v \<in> set vs \<Longrightarrow> by_name vs (name v) = Some v"
proof (induction vs rule: rev_induct)
  case Nil
  then show ?case by simp
next
  case (snoc x xs)
  show ?case
  proof (cases "v = x")
    case True
    then show ?thesis by (simp add: by_name_snoc)
  next
    case False
    with snoc.prems have vin: "v \<in> set xs" by simp
    from snoc.prems have "name x \<notin> name ` set xs" by simp
    with vin have "name v \<noteq> name x" by (metis imageI)
    with vin snoc show ?thesis by (simp add: by_name_snoc)
  qed
qed

lemma distinct_lower_names:
  "distinct (map (\<lambda>v. lower (name v)) vs) \<Longrightarrow> distinct (map name vs)"
proof (induction vs)
  case Nil
  show ?case by simp
next
  case (Cons x xs)
  then have d: "distinct (map name xs)" by simp
  have "name x \<notin> name ` set xs"
  proof
    assume "name x \<in> name ` set xs"
    then obtain y where y: "y \<in> set xs" and "name x = name y" by auto
    then have "lower (name x) = lower (name y)" by simp
    with y have "lower (name x) \<in> (\<lambda>v. lower (name v)) ` set xs" by (metis imageI)
    with Cons.prems show False by simp
  qed
  with d show ?case by simp
qed

text \<open>
  C5, as stated, fails: a list with two variables of the same name builds a query
  object; \<open>Query.__init__\<close> compares no names.
\<close>

theorem duplicate_names_counterexample:
  "Query_init (ListOfVariables
       [Variable ''a'' (Attr ''x'') False, Variable ''a'' (Attr ''y'') False]) =
     Inr (Query [Variable ''a'' (Attr ''x'') False, Variable ''a'' (Attr ''y'') False])"
  by (simp add: Query_init_def)

text \<open>
  C5, amended. Building a query object from a list of variables never fails, whether or
  not two of them share a name; when the names are pairwise distinct without regard to
  case, every variable of the list whose declared name is in lower case is found by the
  lookup of the compiler (\<open>self.variable_by_name.get(variable_name.lower())\<close>) under its
  name in any letter case.
\<close>

theorem registry_construction:
  "Query_init (ListOfVariables vs) = Inr (Query vs)
   \<and> variables (Query vs) = vs
   \<and> (distinct (map (\<lambda>v. lower (name v)) vs) \<longrightarrow>
        (\<forall>v \<in> set vs. name v = lower (name v) \<longrightarrow>
           (\<forall>ident. lower ident = name v \<longrightarrow>
              variable_by_name (Query vs) (lower ident) = Some v)))"
proof -
  have "variable_by_name (Query vs) (lower ident) = Some v"
    if "distinct (map (\<lambda>v. lower (name v)) vs)" and "v \<in> set vs" and "lower ident = name v"
    for v ident
    using by_name_distinct [OF distinct_lower_names [OF that(1)] that(2)] that(3)
    by (simp add: Query_def)
  then show ?thesis by (simp add: Query_init_def) (simp add: Query_def)
qed

text \<open>
  The variable declared as \<open>price\<close> is found under \<open>Price\<close>, and the statement
  \<open>Price > 5\<close> compiles on it.
\<close>

theorem registry_construction_witness:
  "distinct (map (\<lambda>v. lower (name v))
       [Variable ''a'' (Attr ''x'') False, Variable ''price'' (Attr ''y'') False])
   \<and> lower ''Price'' = name (Variable ''price'' (Attr ''y'') False)
   \<and> variable_by_name
       (Query [Variable ''a'' (Attr ''x'') False, Variable ''price'' (Attr ''y'') False])
       (lower ''Price'')
     = Some (Variable ''price'' (Attr ''y'') False)
   \<and> binary_op_as_q
       (Query [Variable ''a'' (Attr ''x'') False, Variable ''price'' (Attr ''y'') False])
       (''Price'', ''>'', PyInt 5) = Inr (Q [(''y__gt'', PyInt 5)])"
proof -
  let ?p = "Variable ''price'' (Attr ''y'') False"
  let ?vs = "[Variable ''a'' (Attr ''x'') False, ?p]"
  have d: "distinct (map (\<lambda>v. lower (name v)) ?vs)"
    by (simp add: Variable_def lower_def lower_char_def)
  have n: "name ?p = lower (name ?p)" by (simp add: Variable_def lower_def lower_char_def)
  have i: "lower ''Price'' = name ?p" by (simp add: Variable_def lower_def lower_char_def)
  have m: "?p \<in> set ?vs" by simp
  from registry_construction [of ?vs] d
  have "\<forall>v \<in> set ?vs. name v = lower (name v) \<longrightarrow>
           (\<forall>ident. lower ident = name v \<longrightarrow>
              variable_by_name (Query ?vs) (lower ident) = Some v)" by blast
  with m n i have r: "variable_by_name (Query ?vs) (lower ''Price'') = Some ?p" by blast
  have b: "binary_op_as_q (Query ?vs) (''Price'', ''>'', PyInt 5) = Inr (Q [(''y__gt'', PyInt 5)])"
    by (simp add: eval_simps)
  from d i r b show ?thesis by simp
qed

text \<open>
  C6. A variable declared as \<open>Price\<close> is found under no identifier, not even \<open>Price\<close>
  itself: the identifier is lower-cased before the lookup, the key is the name as
  declared. Declared as \<open>price\<close>, it is found under \<open>Price\<close>.
\<close>

theorem upper_case_name_not_found:
  "Query_init (ListOfVariables [Variable ''Price'' (Attr ''price'') False]) =
       Inr (Query [Variable ''Price'' (Attr ''price'') False])
   \<and> binary_op_as_q (Query [Variable ''Price'' (Attr ''price'') False])
       (''Price'', ''='', PyInt 5) = Inl (QueryException (Unknown_variable ''Price''))
   \<and> binary_op_as_q (Query [Variable ''Price'' (Attr ''price'') False])
       (''price'', ''='', PyInt 5) = Inl (QueryException (Unknown_variable ''price''))
   \<and> binary_op_as_q (Query [Variable ''price'' (Attr ''price'') False])
       (''Price'', ''='', PyInt 5) = Inr (Q [(''price__iexact'', PyInt 5)])"
  by (simp add: eval_simps Query_init_def)

subsection \<open>Free text\<close>

lemma freetext_qs_paths:
  "map path_of (filter freetext vs) = map has_path ys \<Longrightarrow>
     freetext_qs vs text = Inr (map (freetext_leaf text) ys)"
proof (induction vs arbitrary: ys)
  case Nil
  then show ?case by simp
next
  case (Cons v vs)
  show ?case
  proof (cases "freetext v")
    case False
    with Cons show ?thesis by simp
  next
    case True
    with Cons.prems obtain y ys1 where ys: "ys = y # ys1" and p: "path_of v = has_path y"
      and r: "map path_of (filter freetext vs) = map has_path ys1"
      by (cases ys) auto
    obtain a s where y: "y = (a, s)" by (cases y)
    from p y have "attr v = Attr a" and "op_to_q_op v '':'' = Inr s"
      by (simp_all add: path_of_def has_path_def)
    with True Cons.IH [OF r] ys y show ?thesis by (simp add: freetext_leaf_def)
  qed
qed

text \<open>
  Where the free-text variables of the query object are, in their order, variables with
  the attribute paths and \<open>':'\<close> suffixes \<open>x # xs\<close> (so there is at least one, and each
  has a path and a suffix), a free-text token compiles to the \<open>|\<close> of one predicate
  \<open>path__suffix = text\<close> per free-text variable, joined from the left; the text is the
  token without its leading and trailing double quotes (\<open>strip('"')\<close>).
\<close>

lemma freetext_or_of_contains:
  assumes "map path_of (filter freetext (variables self)) = map has_path (x # xs)"
  shows "freetext_as_q self [t] =
           Inr (foldl Q_or (freetext_leaf (strip_quotes t) x)
                  (map (freetext_leaf (strip_quotes t)) xs))
       \<and> parse self (Parsed (Single (Statement (Freetext [t])))) =
           Inr (foldl Q_or (freetext_leaf (strip_quotes t) x)
                  (map (freetext_leaf (strip_quotes t)) xs))"
proof -
  from assms have "filter freetext (variables self) \<noteq> []" by auto
  then have "list_ex freetext (variables self)"
    by (simp add: list_ex_iff filter_empty_conv)
  with freetext_qs_paths [OF assms, of "strip_quotes t"]
  have "freetext_as_q self [t] =
           Inr (foldl Q_or (freetext_leaf (strip_quotes t) x)
                  (map (freetext_leaf (strip_quotes t)) xs))"
    by (simp add: freetext_as_q_def)
  then show ?thesis by (simp add: parse_single statement_as_q_def)
qed

lemma freetext_or_of_contains_example:
  "parse (Query
       [Variable ''a'' (Attr ''a'') True, Variable ''n'' (Attr ''n'') False,
        Variable ''b'' (Attr ''b'') True])
       (Parsed (Single (Statement (Freetext [quoted ''hello''])))) =
     Inr (Q_or (Q [(''a__icontains'', PyStr ''hello'')]) (Q [(''b__icontains'', PyStr ''hello'')]))"
proof -
  let ?self = "Query [Variable ''a'' (Attr ''a'') True, Variable ''n'' (Attr ''n'') False,
        Variable ''b'' (Attr ''b'') True]"
  have 1: "map path_of (filter freetext (variables ?self)) =
     map has_path [(''a'', ''icontains''), (''b'', ''icontains'')]"
    by (simp add: Query_def Variable_def path_of_def has_path_def default_op_to_q_op_def
        Q_OP_BY_OP_def)
  have s: "strip_quotes (quoted ''hello'') = ''hello''"
    by (simp add: strip_quotes_def quoted_def)
  show ?thesis
    using freetext_or_of_contains [OF 1, of "quoted ''hello''"]
    by (simp add: s freetext_leaf_def)
qed

text \<open>
  C7. On a query object whose one free-text variable has no attribute path, the bare
  quoted string \<open>"hello"\<close> yields no predicate: \<open>freetext_as_q\<close> adds \<open>'__'\<close> to
  \<open>variable.attr\<close> without the test \<open>variable.attr is None\<close> that both \<open>value_to_q\<close>
  functions start with, and raises \<open>TypeError\<close>. The statement \<open>a:"hello"\<close> on the same
  variable compiles to \<open>Q()\<close>.
\<close>

theorem freetext_attr_none_raises:
  "freetext (Variable ''a'' AttrNone True)
   \<and> freetext_as_q (Query [Variable ''a'' AttrNone True]) [quoted ''hello''] = Inl TypeError
   \<and> parse (Query [Variable ''a'' AttrNone True])
       (Parsed (Single (Statement (Freetext [quoted ''hello''])))) = Inl TypeError
   \<and> binary_op_as_q (Query [Variable ''a'' AttrNone True])
       (''a'', '':'', StringValue ''hello'') = Inr (Q [])"
  by (simp add: parse_single eval_simps)

text \<open>
  C8, as stated, fails: the error is not one of its own. On a query object with no
  free-text variable the free-text clause \<open>"hello"\<close> raises the same \<open>AssertionError\<close> as
  the statement \<open>make != "volvo"\<close> of a user on a \<open>choice_queryset\<close> variable.
\<close>

theorem freetext_error_not_distinct_counterexample:
  "parse (Query [Variable_choice_queryset ''make'' (Attr ''make'') found_1])
       (Parsed (Single (Statement (Freetext [quoted ''hello''])))) = Inl AssertionError
   \<and> parse (Query [Variable_choice_queryset ''make'' (Attr ''make'') found_1])
       (Parsed (Single (Statement (Binary (''make'', ''!='', StringValue ''volvo''))))) =
       Inl AssertionError"
  by (simp add: parse_single eval_simps)

text \<open>
  C8, amended. With no free-text variable in the query object, a free-text clause fails
  the assertion of \<open>freetext_as_q\<close>: the clause raises \<open>AssertionError\<close>, the exception of
  every failed \<open>assert\<close> of the code and none of the \<open>QueryException\<close>s; so does a query
  made of the clause, and no query that contains the clause compiles to a predicate.
\<close>

theorem freetext_without_freetext_variable:
  assumes "\<not> list_ex freetext (variables self)"
  shows "freetext_as_q self token = Inl AssertionError
       \<and> parse self (Parsed (Single (Statement (Freetext token)))) = Inl AssertionError
       \<and> (Freetext token \<in> set_where_expression e \<longrightarrow> (\<exists>err. parse self (Parsed e) = Inl err))"
proof -
  have s: "statement_as_q self (Freetext token) = Inl AssertionError"
    using assms by (simp add: statement_as_q_def freetext_as_q_def)
  show ?thesis using s parse_fails [OF _ s, of e]
    by (simp add: parse_single) (simp add: statement_as_q_def)
qed

theorem freetext_without_freetext_variable_witness:
  "\<not> list_ex freetext (variables (Query [Variable ''a'' (Attr ''a'') False]))
   \<and> parse (Query [Variable ''a'' (Attr ''a'') False])
       (Parsed (Single (Statement (Freetext [quoted ''hello''])))) = Inl AssertionError
   \<and> isl (parse (Query [Variable ''a'' (Attr ''a'') False])
       (Parsed (Chain (Statement (a_is 1)) And (Single (Statement (Freetext [quoted ''hello'']))))))"
proof -
  let ?e = "Chain (Statement (a_is 1)) And (Single (Statement (Freetext [quoted ''hello''])))"
  have 1: "\<not> list_ex freetext (variables (Query [Variable ''a'' (Attr ''a'') False]))"
    by (simp add: Query_def Variable_def)
  have m: "Freetext [quoted ''hello''] \<in> set_where_expression ?e" by simp
  from freetext_without_freetext_variable [OF 1, of "[quoted ''hello'']" ?e] m
  have "\<exists>err. parse (Query [Variable ''a'' (Attr ''a'') False]) (Parsed ?e) = Inl err"
    by blast
  then have i: "isl (parse (Query [Variable ''a'' (Attr ''a'') False]) (Parsed ?e))" by auto
  show ?thesis
    using 1 i freetext_without_freetext_variable [OF 1, of "[quoted ''hello'']" ?e] by simp
qed

subsection \<open>Negated operators and variables without an attribute\<close>

text \<open>
  C9, as stated, fails: the \<open>op_to_q_op\<close> of a \<open>choice_queryset\<close> variable handles \<open>=\<close>, the
  statement with \<open>=\<close> compiles, and the statement with \<open>!=\<close> fails the assertion
  \<open>op == '='\<close> of \<open>choice_queryset_value_to_q\<close>.
\<close>

theorem negation_counterexample:
  "op_to_q_op (Variable_choice_queryset ''make'' (Attr ''make'') found_1) ''='' = Inr ''exact''
   \<and> binary_op_as_q (Query [Variable_choice_queryset ''make'' (Attr ''make'') found_1])
       (''make'', ''='', StringValue ''volvo'') = Inr (Q [(''make__pk'', PyInt 1)])
   \<and> binary_op_as_q (Query [Variable_choice_queryset ''make'' (Attr ''make'') found_1])
       (''make'', ''!='', StringValue ''volvo'') = Inl AssertionError"
  by (simp add: eval_simps found_1_def)

text \<open>
  C9, amended. For a variable that uses \<open>default_value_to_q\<close> and has an attribute path:
  when its \<open>op_to_q_op\<close> handles \<open>=\<close>, the statement with \<open>=\<close> compiles to a predicate
  \<open>p\<close> and the statement with \<open>!=\<close> on the same value to \<open>~p\<close>; likewise for \<open>:\<close> and
  \<open>!:\<close>.
\<close>

theorem negated_operator_complement:
  assumes "variable_by_name self (lower variable_name) = Some variable"
    and "value_to_q variable = default_value_to_q"
    and "attr variable = Attr a"
  shows "(op_to_q_op variable ''='' = Inr s \<longrightarrow>
            (\<exists>p. binary_op_as_q self (variable_name, ''='', v) = Inr p
               \<and> binary_op_as_q self (variable_name, ''!='', v) = Inr (Q_not p)))
       \<and> (op_to_q_op variable '':'' = Inr s \<longrightarrow>
            (\<exists>p. binary_op_as_q self (variable_name, '':'', v) = Inr p
               \<and> binary_op_as_q self (variable_name, ''!:'', v) = Inr (Q_not p)))"
  using assms
  by (simp add: binary_op_as_q_def default_value_to_q_def variable_fields.truncate_def Let_def)

theorem negated_operator_complement_witness:
  "binary_op_as_q (Query [Variable ''price'' (Attr ''price'') False])
       (''price'', ''='', PyInt 5) = Inr (Q [(''price__iexact'', PyInt 5)])
   \<and> binary_op_as_q (Query [Variable ''price'' (Attr ''price'') False])
       (''price'', ''!='', PyInt 5) = Inr (Q_not (Q [(''price__iexact'', PyInt 5)]))
   \<and> binary_op_as_q (Query [Variable ''price'' (Attr ''price'') False])
       (''price'', ''!:'', PyInt 5) = Inr (Q_not (Q [(''price__icontains'', PyInt 5)]))"
proof -
  let ?v = "Variable ''price'' (Attr ''price'') False"
  have 1: "variable_by_name (Query [?v]) (lower ''price'') = Some ?v"
    by (simp add: Query_def by_name_def lower_def lower_char_def Variable_def)
  have 2: "value_to_q ?v = default_value_to_q" by (simp add: Variable_def)
  have 3: "attr ?v = Attr ''price''" by (simp add: Variable_def)
  have 4: "op_to_q_op ?v ''='' = Inr ''iexact''"
    by (simp add: Variable_def default_op_to_q_op_def Q_OP_BY_OP_def)
  have 5: "op_to_q_op ?v '':'' = Inr ''icontains''"
    by (simp add: Variable_def default_op_to_q_op_def Q_OP_BY_OP_def)
  have e: "binary_op_as_q (Query [?v]) (''price'', ''='', PyInt 5)
      = Inr (Q [(''price__iexact'', PyInt 5)])"
    by (simp add: eval_simps)
  have c: "binary_op_as_q (Query [?v]) (''price'', '':'', PyInt 5)
      = Inr (Q [(''price__icontains'', PyInt 5)])"
    by (simp add: eval_simps)
  from negated_operator_complement [OF 1 2 3, of "''iexact''" "PyInt 5"] 4 e
  have n1: "binary_op_as_q (Query [?v]) (''price'', ''!='', PyInt 5)
      = Inr (Q_not (Q [(''price__iexact'', PyInt 5)]))" by auto
  from negated_operator_complement [OF 1 2 3, of "''icontains''" "PyInt 5"] 5 c
  have n2: "binary_op_as_q (Query [?v]) (''price'', ''!:'', PyInt 5)
      = Inr (Q_not (Q [(''price__icontains'', PyInt 5)]))" by auto
  from e n1 n2 show ?thesis by simp
qed

text \<open>
  C10, as stated, fails: on a \<open>choice_queryset\<close> variable without attribute a statement
  with an operator other than \<open>=\<close> fails the assertion \<open>op == '='\<close>, which stands before
  the test of the attribute.
\<close>

theorem attr_none_counterexample:
  "attr (Variable_choice_queryset ''make'' AttrNone found_1) = AttrNone
   \<and> binary_op_as_q (Query [Variable_choice_queryset ''make'' AttrNone found_1])
       (''make'', '':'', StringValue ''volvo'') = Inl AssertionError"
  by (simp add: eval_simps)

text \<open>
  C10, amended. For a variable whose attribute is \<open>None\<close>, a statement that names it
  compiles to the empty \<open>Q()\<close> without an error under \<open>default_value_to_q\<close> for every
  operator and every value, and under \<open>choice_queryset_value_to_q\<close> for the operator \<open>=\<close>
  and every value (the database is not asked).
\<close>

theorem attr_none_matches_everything:
  assumes "variable_by_name self (lower variable_name) = Some variable"
    and "attr variable = AttrNone"
  shows "(value_to_q variable = default_value_to_q \<longrightarrow>
            binary_op_as_q self (variable_name, op, v) = Inr (Q []))
       \<and> (value_to_q variable = choice_queryset_value_to_q \<longrightarrow>
            binary_op_as_q self (variable_name, ''='', v) = Inr (Q []))"
  using assms
  by (simp add: binary_op_as_q_def default_value_to_q_def choice_queryset_value_to_q_def
      variable_fields.truncate_def)

theorem attr_none_matches_everything_witness:
  "binary_op_as_q (Query [Variable ''price'' AttrNone False])
       (''price'', ''>'', PyInt 5) = Inr (Q [])
   \<and> binary_op_as_q (Query [Variable_choice_queryset ''make'' AttrNone not_found])
       (''make'', ''='', StringValue ''volvo'') = Inr (Q [])"
proof -
  let ?v = "Variable ''price'' AttrNone False"
  let ?w = "Variable_choice_queryset ''make'' AttrNone not_found"
  have 1: "variable_by_name (Query [?v]) (lower ''price'') = Some ?v"
    by (simp add: Query_def by_name_def lower_def lower_char_def Variable_def)
  have 2: "attr ?v = AttrNone" by (simp add: Variable_def)
  have 3: "value_to_q ?v = default_value_to_q" by (simp add: Variable_def)
  have 4: "variable_by_name (Query [?w]) (lower ''make'') = Some ?w"
    by (simp add: Query_def by_name_def lower_def lower_char_def Variable_choice_queryset_def)
  have 5: "attr ?w = AttrNone" by (simp add: Variable_choice_queryset_def)
  have 6: "value_to_q ?w = choice_queryset_value_to_q"
    by (simp add: Variable_choice_queryset_def)
  from attr_none_matches_everything [OF 1 2, of "''>''" "PyInt 5"] 3
       attr_none_matches_everything [OF 4 5, of "''=''" "StringValue ''volvo''"] 6
  show ?thesis by simp
qed

end
